theory Spec2Isabelle
  imports Complex_Main "HOL-Library.Sublist"
begin

section \<open>Chat playground: smart context management\<close>

text \<open>
  The embedding of \<^verbatim>\<open>handleStreamingResponse\<close> of
  \<^verbatim>\<open>frontend/src/components/ChatPlayground.jsx\<close>. A chat message is an object with
  a role and a content string; token counts and the max-tokens setting are JavaScript
  numbers holding integers, modelled as \<open>int\<close>. The string length is the number of
  code units of the content. The pass-through settings \<^verbatim>\<open>temperature\<close> and
  \<^verbatim>\<open>top_p\<close> take no part in the context management and are left out of the request
  body.
\<close>

record message =
  role :: string
  content :: string

record model_info =
  abbr :: string
  endpoint :: string

record request_body =
  rb_messages :: "message list"
  rb_stream :: bool
  rb_max_tokens :: int

record chat_call =
  apiEndpoint :: string
  requestBody :: request_body
  contextTruncated :: bool

text \<open>\<^verbatim>\<open>Math.ceil(n / 4)\<close> for a string length \<open>n\<close>.\<close>

definition ceil4 :: "nat \<Rightarrow> int" where
  "ceil4 n = \<lceil>real n / 4\<rceil>"

text \<open>
  \<^verbatim>\<open>msgs.reduce((sum, msg) => sum + Math.ceil(msg.content.length / 4), 0)\<close>
\<close>

definition estimateTokens :: "message list \<Rightarrow> int" where
  "estimateTokens msgs = foldl (\<lambda>sum msg. sum + ceil4 (length (content msg))) 0 msgs"

definition modelMaxContext :: int where
  "modelMaxContext = 2048"

text \<open>
  \<^verbatim>\<open>[{role: 'system', content: systemPrompt}, ...messages.filter(m => m.role !== 'system'), userMessage]\<close>
\<close>

definition allMessages :: "string \<Rightarrow> message list \<Rightarrow> message \<Rightarrow> message list" where
  "allMessages systemPrompt messages userMessage =
     \<lparr>role = ''system'', content = systemPrompt\<rparr>
       # filter (\<lambda>m. role m \<noteq> ''system'') messages @ [userMessage]"

text \<open>
  \<^verbatim>\<open>Array.prototype.slice(start)\<close> with one argument: a negative start counts from
  the end, and the start is clamped to the array.
\<close>

definition js_slice :: "int \<Rightarrow> 'a list \<Rightarrow> 'a list" where
  "js_slice start xs =
     (let n = int (length xs);
          s = (if start < 0 then max (n + start) 0 else min start n)
      in drop (nat s) xs)"

text \<open>\<^verbatim>\<open>messagesToSend.splice(1, 1)\<close>: remove the element at index 1, if any.\<close>

definition splice_1_1 :: "'a list \<Rightarrow> 'a list" where
  "splice_1_1 xs = take 1 xs @ drop 2 xs"

text \<open>
  \<^verbatim>\<open>while (estimateTokens(messagesToSend) + maxTokens > modelMaxContext - 50
           && messagesToSend.length > 2) messagesToSend.splice(1, 1);\<close>
\<close>

function truncateLoop :: "int \<Rightarrow> message list \<Rightarrow> message list" where
  "truncateLoop maxTokens messagesToSend =
     (if estimateTokens messagesToSend + maxTokens > modelMaxContext - 50
         \<and> length messagesToSend > 2
      then truncateLoop maxTokens (splice_1_1 messagesToSend)
      else messagesToSend)"
  by pat_completeness auto
termination
  by (relation "measure (\<lambda>(maxTokens, messagesToSend). length messagesToSend)")
     (auto simp: splice_1_1_def)

declare truncateLoop.simps [simp del]

text \<open>The number of times the body of that loop runs.\<close>

function truncateLoop_iterations :: "int \<Rightarrow> message list \<Rightarrow> nat" where
  "truncateLoop_iterations maxTokens messagesToSend =
     (if estimateTokens messagesToSend + maxTokens > modelMaxContext - 50
         \<and> length messagesToSend > 2
      then Suc (truncateLoop_iterations maxTokens (splice_1_1 messagesToSend))
      else 0)"
  by pat_completeness auto
termination
  by (relation "measure (\<lambda>(maxTokens, messagesToSend). length messagesToSend)")
     (auto simp: splice_1_1_def)

declare truncateLoop_iterations.simps [simp del]

text \<open>
  The list kept on entry to the truncation path:
  \<^verbatim>\<open>[allMessages[0], ...allMessages.slice(-(Math.min(10, allMessages.length - 1)))]\<close>
  It is computed from \<open>allMessages\<close> only, which begins with the system prompt and
  has at least two elements, so index 0 is in range.
\<close>

definition keptMessages :: "message list \<Rightarrow> message list" where
  "keptMessages all = all ! 0 # js_slice (- (min 10 (int (length all) - 1))) all"

text \<open>
  The context management of \<^verbatim>\<open>handleStreamingResponse\<close>: the messages to send, the
  value given to \<^verbatim>\<open>setContextTruncated\<close>, and the safe \<^verbatim>\<open>max_tokens\<close>.
\<close>

definition messagesToSend_of :: "int \<Rightarrow> message list \<Rightarrow> message list \<times> bool" where
  "messagesToSend_of maxTokens all =
     (if estimateTokens all + maxTokens > modelMaxContext - 50
      then (truncateLoop maxTokens (keptMessages all), True)
      else (all, False))"

definition safeMaxTokens_of :: "int \<Rightarrow> message list \<Rightarrow> int" where
  "safeMaxTokens_of maxTokens messagesToSend =
     min maxTokens (modelMaxContext - estimateTokens messagesToSend - 50)"

definition handleStreamingResponse ::
  "model_info list \<Rightarrow> string \<Rightarrow> string \<Rightarrow> message list \<Rightarrow> int \<Rightarrow> message \<Rightarrow> chat_call option"
where
  "handleStreamingResponse models selectedModel systemPrompt messages maxTokens userMessage =
     (case find (\<lambda>m. abbr m = selectedModel) models of
        None \<Rightarrow> None
      | Some model \<Rightarrow>
          let all = allMessages systemPrompt messages userMessage;
              (messagesToSend, truncated) = messagesToSend_of maxTokens all;
              inputTokens = estimateTokens messagesToSend;
              safeMaxTokens = safeMaxTokens_of maxTokens messagesToSend
          in Some \<lparr>apiEndpoint = endpoint model @ ''/chat/completions'',
                   requestBody = \<lparr>rb_messages = messagesToSend, rb_stream = True,
                                  rb_max_tokens = safeMaxTokens\<rparr>,
                   contextTruncated = truncated\<rparr>)"

text \<open>
  The messages after the system prompt, none of which is a system message when the user
  message is not, and the last \<open>k\<close> elements of a list.
\<close>

definition nonSystemMessages :: "message list \<Rightarrow> message \<Rightarrow> message list" where
  "nonSystemMessages messages userMessage =
     filter (\<lambda>m. role m \<noteq> ''system'') messages @ [userMessage]"

definition last_n :: "nat \<Rightarrow> 'a list \<Rightarrow> 'a list" where
  "last_n k xs = drop (length xs - k) xs"

subsection \<open>The statements of the specification, in its own words\<close>

text \<open>
  A message list exceeds the budget: its estimated tokens plus \<open>R + B\<close> exceed \<open>W\<close>,
  with \<open>B = 50\<close>.
\<close>

definition exceeds_budget :: "int \<Rightarrow> message list \<Rightarrow> bool" where
  "exceeds_budget R msgs = (estimateTokens msgs + R + 50 > modelMaxContext)"

text \<open>
  The per-message estimate of the specification: \<open>ceil(len(content) / 4) + 4\<close>, the 4
  being the role overhead.
\<close>

definition spec_message_tokens :: "message \<Rightarrow> int" where
  "spec_message_tokens m = \<lceil>real (length (content m)) / 4\<rceil> + 4"

definition spec_input_tokens :: "message list \<Rightarrow> int" where
  "spec_input_tokens msgs = sum_list (map spec_message_tokens msgs)"

text \<open>The budget of the specification: \<open>R = min(max_tokens, floor(W / 2))\<close>.\<close>

definition spec_R :: "int \<Rightarrow> int" where
  "spec_R maxTokens = min maxTokens (modelMaxContext div 2)"

text \<open>The shrunk budget of the specification: \<open>max(64, W - input_tokens - B)\<close>.\<close>

definition spec_shrunk_R :: "int \<Rightarrow> int" where
  "spec_shrunk_R inputTokens = max 64 (modelMaxContext - inputTokens - 50)"

section \<open>API key manager\<close>

text \<open>
  The key list of \<^verbatim>\<open>frontend/src/components/ApiKeyManager.jsx\<close>. An element of
  the \<^verbatim>\<open>apiKeys\<close> property is an object of the list response; a field it does not
  carry reads as \<^verbatim>\<open>undefined\<close>, modelled as \<open>None\<close>. The mask character of the
  display is not a key character, so a displayed text is a list of glyphs.
\<close>

datatype glyph = Ch char | Bullet

record api_key_entry =
  ak_name :: "string option"
  ak_prefix :: "string option"
  ak_key :: "string option"
  ak_full_key :: "string option"
  ak_created_at :: "nat option"
  ak_last_used_at :: "nat option"

text \<open>\<^verbatim>\<open>a || b\<close> on strings that may be undefined: the empty string is falsy too.\<close>

definition js_or :: "string option \<Rightarrow> string option \<Rightarrow> string option" where
  "js_or a b = (case a of None \<Rightarrow> b | Some s \<Rightarrow> if s = [] then b else a)"

text \<open>
  \<^verbatim>\<open>maskKey\<close>: eight mask characters for a missing key, else
  \<^verbatim>\<open>key.substring(0, 8)\<close> followed by sixteen mask characters.
\<close>

definition maskKey :: "string option \<Rightarrow> glyph list" where
  "maskKey key =
     (case key of
        None \<Rightarrow> replicate 8 Bullet
      | Some s \<Rightarrow> if s = [] then replicate 8 Bullet
                  else map Ch (take 8 s) @ replicate 16 Bullet)"

text \<open>
  \<^verbatim>\<open>toggleKeyVisibility\<close> on the set \<^verbatim>\<open>visibleKeys\<close>, whose elements are the values
  of \<^verbatim>\<open>apiKey.full_key\<close> that were toggled (possibly \<^verbatim>\<open>undefined\<close>).
\<close>

definition toggleKeyVisibility :: "string option \<Rightarrow> string option set \<Rightarrow> string option set" where
  "toggleKeyVisibility key visibleKeys =
     (if key \<in> visibleKeys then visibleKeys - {key} else insert key visibleKeys)"

text \<open>
  The text of the \<^verbatim>\<open>code\<close> element of one row:
  \<^verbatim>\<open>visibleKeys.has(apiKey.full_key) ? apiKey.full_key : maskKey(apiKey.full_key || apiKey.key)\<close>.
  An undefined value renders as nothing.
\<close>

definition displayKey :: "string option set \<Rightarrow> api_key_entry \<Rightarrow> glyph list" where
  "displayKey visibleKeys apiKey =
     (if ak_full_key apiKey \<in> visibleKeys
      then (case ak_full_key apiKey of None \<Rightarrow> [] | Some s \<Rightarrow> map Ch s)
      else maskKey (js_or (ak_full_key apiKey) (ak_key apiKey)))"

text \<open>The key characters that a displayed text shows.\<close>

fun revealed :: "glyph list \<Rightarrow> string" where
  "revealed [] = []"
| "revealed (Ch c # gs) = c # revealed gs"
| "revealed (Bullet # gs) = revealed gs"

text \<open>
  Modelled from the spec: the orchestrator's API-key store and its endpoints
  \<^verbatim>\<open>POST /api-keys\<close> and \<^verbatim>\<open>GET /api-keys\<close>, whose code is not among the sources
  (only their caller, the dashboard, is). A stored key holds the hash of the full key
  and the plaintext prefix, its first 8 characters; the creation response is
  \<^verbatim>\<open>{api_key, name, prefix}\<close>; the list response is
  \<^verbatim>\<open>[{name, prefix, created_at, last_used_at}]\<close>. The hash function and the fresh
  token are parameters.
\<close>

record stored_key =
  sk_hash :: string
  sk_prefix :: string
  sk_name :: string
  sk_description :: string
  sk_created_at :: nat
  sk_last_used_at :: "nat option"

record create_response =
  cr_api_key :: string
  cr_name :: string
  cr_prefix :: string

text \<open>
  Modelled from the spec: \<^verbatim>\<open>POST /api-keys\<close>, absent from the sources. It stores
  the hash and the prefix of the fresh token and answers \<^verbatim>\<open>{api_key, name, prefix}\<close>.
\<close>

definition create_api_key ::
  "(string \<Rightarrow> string) \<Rightarrow> string \<Rightarrow> string \<Rightarrow> string \<Rightarrow> nat \<Rightarrow> stored_key list
     \<Rightarrow> create_response \<times> stored_key list"
where
  "create_api_key H token name description now store =
     (\<lparr>cr_api_key = token, cr_name = name, cr_prefix = take 8 token\<rparr>,
      store @ [\<lparr>sk_hash = H token, sk_prefix = take 8 token, sk_name = name,
                sk_description = description, sk_created_at = now,
                sk_last_used_at = None\<rparr>])"

text \<open>
  Modelled from the spec: one element of the answer of \<^verbatim>\<open>GET /api-keys\<close>, absent
  from the sources: \<^verbatim>\<open>{name, prefix, created_at, last_used_at}\<close>, the other fields
  of the dashboard's row being undefined.
\<close>

definition list_entry :: "stored_key \<Rightarrow> api_key_entry" where
  "list_entry k =
     \<lparr>ak_name = Some (sk_name k), ak_prefix = Some (sk_prefix k), ak_key = None,
      ak_full_key = None, ak_created_at = Some (sk_created_at k),
      ak_last_used_at = sk_last_used_at k\<rparr>"

text \<open>
  Modelled from the spec: \<^verbatim>\<open>GET /api-keys\<close>, absent from the sources.
\<close>

definition list_api_keys :: "stored_key list \<Rightarrow> api_key_entry list" where
  "list_api_keys store = map list_entry store"

section \<open>Reconciliation script\<close>

text \<open>
  The embedding of \<^verbatim>\<open>sync_redis.sh\<close>. The Redis keyspace is an association list
  from keys to values, a value being a hash (fields to strings) or a plain string.
  The script discards the output and the errors of every \<^verbatim>\<open>redis-cli\<close> call.
\<close>

datatype rvalue = RHash "(string \<times> string) list" | RString string

type_synonym redis = "(string \<times> rvalue) list"

definition redis_del :: "string \<Rightarrow> redis \<Rightarrow> redis" where
  "redis_del key db = filter (\<lambda>kv. fst kv \<noteq> key) db"

definition redis_set :: "string \<Rightarrow> string \<Rightarrow> redis \<Rightarrow> redis" where
  "redis_set key v db = (key, RString v) # redis_del key db"

definition hash_put :: "string \<times> string \<Rightarrow> (string \<times> string) list \<Rightarrow> (string \<times> string) list" where
  "hash_put fv h = fv # filter (\<lambda>e. fst e \<noteq> fst fv) h"

text \<open>
  \<^verbatim>\<open>HSET key f1 v1 f2 v2 ...\<close>: sets the fields of the hash at the key, creating
  it when the key is absent; on a key that holds a string the command fails and nothing
  changes.
\<close>

definition redis_hset :: "string \<Rightarrow> (string \<times> string) list \<Rightarrow> redis \<Rightarrow> redis" where
  "redis_hset key fvs db =
     (case map_of db key of
        None \<Rightarrow> (key, RHash (fold hash_put fvs [])) # db
      | Some (RHash h) \<Rightarrow> (key, RHash (fold hash_put fvs h)) # redis_del key db
      | Some (RString s) \<Rightarrow> db)"

definition redis_hget :: "string \<Rightarrow> string \<Rightarrow> redis \<Rightarrow> string" where
  "redis_hget key field db =
     (case map_of db key of
        Some (RHash h) \<Rightarrow> (case map_of h field of Some v \<Rightarrow> v | None \<Rightarrow> [])
      | _ \<Rightarrow> [])"

text \<open>\<^verbatim>\<open>EXISTS key\<close>: the key holds a value.\<close>

definition redis_exists :: "string \<Rightarrow> redis \<Rightarrow> bool" where
  "redis_exists key db = (map_of db key \<noteq> None)"

text \<open>\<^verbatim>\<open>redis-cli --scan --pattern "model:*"\<close>: the keys that begin with the given text.\<close>

definition redis_scan :: "string \<Rightarrow> redis \<Rightarrow> string list" where
  "redis_scan p db = remdups (filter (prefix p) (map fst db))"

text \<open>
  A container as \<^verbatim>\<open>docker ps\<close> lists it and \<^verbatim>\<open>docker inspect\<close> describes it:
  whether the inspection succeeds, the environment, the arguments and the state
  (\<^verbatim>\<open>docker ps\<close> lists paused and restarting containers too). The script pastes the
  abbreviation and the model name into the text of its lookup program; the last field
  is what that program prints for this container when a pasted value changes the
  program text (see \<open>pastes_as_literal\<close>), which the embedding leaves open.
\<close>

record container =
  c_name :: string
  c_inspect_ok :: bool
  c_env :: "string list"
  c_args :: "string list"
  c_status :: string
  c_broken_lookup :: string

text \<open>
  An entry of \<^verbatim>\<open>predefined_models\<close>: each of the keys \<^verbatim>\<open>abbr\<close>, \<^verbatim>\<open>name\<close> and
  \<^verbatim>\<open>type\<close> holds a one-line string or is absent. The catalog file is not found, or
  does not load as an object with a list of such entries, or is parsed.
\<close>

record catalog_entry =
  cm_abbr :: "string option"
  cm_name :: "string option"
  cm_type :: "string option"

datatype models_json = NotFound | Unparsable | Parsed "catalog_entry list"

datatype log_event =
    NoContainers
  | CleanedAll
  | ContainerRunning string string
  | NotInCatalog string
  | CatalogMissing string
  | ContainerNotRunning string string
  | InspectFailed string
  | RemovedStale string
  | RoutesRegenerated
  | NginxReloadFailed
  | OrchestratorUnavailable

text \<open>\<^verbatim>\<open>${var#prefix}\<close>: the value without the prefix, when it has it.\<close>

definition strip_prefix :: "string \<Rightarrow> string \<Rightarrow> string" where
  "strip_prefix p s = (if prefix p s then drop (length p) s else s)"

text \<open>
  The GPU of a container: the value of the first \<^verbatim>\<open>CUDA_VISIBLE_DEVICES=\<close> entry of its
  environment, else \<^verbatim>\<open>0\<close>.
\<close>

definition gpu_device_of :: "string list \<Rightarrow> string" where
  "gpu_device_of env =
     (case find (prefix ''CUDA_VISIBLE_DEVICES='') env of
        Some var \<Rightarrow> drop (length ''CUDA_VISIBLE_DEVICES='') var
      | None \<Rightarrow> ''0'')"

text \<open>The model name of a container: the argument after the first \<^verbatim>\<open>--model\<close> that has one.\<close>

fun model_name_of :: "string list \<Rightarrow> string" where
  "model_name_of [] = []"
| "model_name_of (arg # args) =
     (if arg = ''--model'' \<and> args \<noteq> [] then hd args else model_name_of args)"

text \<open>
  The catalog lookup over \<^verbatim>\<open>predefined_models\<close>: the first entry with the
  abbreviation, or else with the model name, gives \<^verbatim>\<open>name|type\<close>; no entry gives
  \<^verbatim>\<open>name|unknown\<close>. Reading a key that an entry does not have raises, and then
  nothing is printed: the result is \<open>None\<close>. The keys are read in the program's order:
  \<^verbatim>\<open>abbr\<close> of every entry visited, \<^verbatim>\<open>name\<close> only where the program needs it,
  \<^verbatim>\<open>type\<close> of the entry that matches.
\<close>

fun lookup_model_info :: "catalog_entry list \<Rightarrow> string \<Rightarrow> string \<Rightarrow> string option" where
  "lookup_model_info [] MODEL_ABBR MODEL_NAME = Some (MODEL_NAME @ ''|unknown'')"
| "lookup_model_info (model # models) MODEL_ABBR MODEL_NAME =
     (case cm_abbr model of
        None \<Rightarrow> None
      | Some entry_abbr \<Rightarrow>
          if entry_abbr = MODEL_ABBR
          then (if MODEL_NAME \<noteq> []
                then (case cm_type model of
                        None \<Rightarrow> None
                      | Some ty \<Rightarrow> Some (MODEL_NAME @ ''|'' @ ty))
                else (case cm_name model of
                        None \<Rightarrow> None
                      | Some entry_name \<Rightarrow>
                          (case cm_type model of
                             None \<Rightarrow> None
                           | Some ty \<Rightarrow> Some (entry_name @ ''|'' @ ty))))
          else if MODEL_NAME \<noteq> []
          then (case cm_name model of
                  None \<Rightarrow> None
                | Some entry_name \<Rightarrow>
                    if entry_name = MODEL_NAME
                    then (case cm_type model of
                            None \<Rightarrow> None
                          | Some ty \<Rightarrow> Some (entry_name @ ''|'' @ ty))
                    else lookup_model_info models MODEL_ABBR MODEL_NAME)
          else lookup_model_info models MODEL_ABBR MODEL_NAME)"

text \<open>
  A value pastes into the program as the string literal it is when it has no quote, no
  backslash and no line break.
\<close>

definition pastes_as_literal :: "string \<Rightarrow> bool" where
  "pastes_as_literal s =
     list_all (\<lambda>c. c \<noteq> CHR 0x27 \<and> c \<noteq> CHR 0x5C \<and> c \<noteq> CHR 0x0A \<and> c \<noteq> CHR 0x0D) s"

text \<open>
  \<^verbatim>\<open>MODEL_INFO=$(python3 -c "..." 2>/dev/null)\<close> once the catalog file is found: the
  output of the lookup program, empty when the program fails (the file does not load,
  or a key is missing); the exit status is not looked at.
\<close>

definition run_lookup :: "models_json \<Rightarrow> container \<Rightarrow> string \<Rightarrow> string \<Rightarrow> string" where
  "run_lookup catalog c MODEL_ABBR MODEL_NAME =
     (if \<not> (pastes_as_literal MODEL_ABBR \<and> pastes_as_literal MODEL_NAME)
      then c_broken_lookup c
      else case catalog of
             Parsed models \<Rightarrow>
               (case lookup_model_info models MODEL_ABBR MODEL_NAME of
                  Some out \<Rightarrow> out
                | None \<Rightarrow> [])
           | _ \<Rightarrow> [])"

text \<open>\<^verbatim>\<open>cut -d'|' -f1\<close> and \<^verbatim>\<open>cut -d'|' -f2\<close> of one line.\<close>

definition cut_f1 :: "string \<Rightarrow> string" where
  "cut_f1 line = takeWhile (\<lambda>c. c \<noteq> CHR ''|'') line"

definition cut_f2 :: "string \<Rightarrow> string" where
  "cut_f2 line =
     (if CHR ''|'' \<in> set line
      then takeWhile (\<lambda>c. c \<noteq> CHR ''|'') (tl (dropWhile (\<lambda>c. c \<noteq> CHR ''|'') line))
      else line)"

text \<open>The body of the loop over the running containers.\<close>

definition sync_container ::
  "models_json \<Rightarrow> container \<Rightarrow> redis \<times> log_event list \<Rightarrow> redis \<times> log_event list"
where
  "sync_container catalog c st =
     (let db = fst st; log = snd st;
          MODEL_ABBR = strip_prefix ''MIND_MODEL_'' (c_name c)
      in if \<not> c_inspect_ok c then (db, log @ [InspectFailed (c_name c)])
         else
           let GPU_DEVICE = gpu_device_of (c_env c)
           in if c_status c \<noteq> ''running''
              then (db, log @ [ContainerNotRunning (c_name c) (c_status c)])
              else
                let log1 = log @ [ContainerRunning (c_name c) GPU_DEVICE];
                    MODEL_NAME0 = model_name_of (c_args c)
                in if catalog = NotFound
                   then (db, log1 @ [CatalogMissing MODEL_ABBR])
                   else
                     let MODEL_INFO = run_lookup catalog c MODEL_ABBR MODEL_NAME0;
                         MODEL_NAME = cut_f1 MODEL_INFO;
                         MODEL_TYPE = cut_f2 MODEL_INFO
                     in if MODEL_TYPE = ''unknown''
                        then (db, log1 @ [NotInCatalog MODEL_ABBR])
                        else
                          (redis_set (''gpu_assignment:'' @ MODEL_ABBR) GPU_DEVICE
                             (redis_hset (''model:'' @ MODEL_ABBR)
                                [(''abbr'', MODEL_ABBR),
                                 (''name'', MODEL_NAME),
                                 (''type'', MODEL_TYPE),
                                 (''status'', ''running''),
                                 (''container_name'', c_name c),
                                 (''container_id'', c_name c),
                                 (''gpu_device'', GPU_DEVICE),
                                 (''port'', ''8000''),
                                 (''endpoint'', ''/api/v1/'' @ MODEL_ABBR)] db),
                           log1))"

text \<open>
  \<^verbatim>\<open>grep -q "^$CONTAINER_NAME$"\<close> over the lines of \<^verbatim>\<open>$RUNNING_MODELS\<close>. The name
  is used as a regular expression: over the characters of an abbreviation
  (\<^verbatim>\<open>[a-z0-9._-]\<close>) and of the container prefix, every character stands for itself
  except the dot, which stands for any character.
\<close>

definition regex_line_match :: "string \<Rightarrow> string \<Rightarrow> bool" where
  "regex_line_match pat line = list_all2 (\<lambda>p c. p = CHR ''.'' \<or> p = c) pat line"

definition grep_q :: "string \<Rightarrow> string list \<Rightarrow> bool" where
  "grep_q pat lines = list_ex (regex_line_match pat) lines"

text \<open>The body of the loop that removes the entries of containers that do not run.\<close>

definition clean_key :: "string list \<Rightarrow> string \<Rightarrow> redis \<times> log_event list \<Rightarrow> redis \<times> log_event list" where
  "clean_key RUNNING_MODELS key st =
     (let db = fst st; log = snd st;
          MODEL_ABBR = strip_prefix ''model:'' key;
          CONTAINER_NAME = ''MIND_MODEL_'' @ MODEL_ABBR
      in if \<not> grep_q CONTAINER_NAME RUNNING_MODELS
         then (redis_del (''gpu_assignment:'' @ MODEL_ABBR) (redis_del key db),
               log @ [RemovedStale MODEL_ABBR])
         else (db, log))"

text \<open>The route file, as its lines. Both location blocks end with the same directives.\<close>

definition location_common :: "string list" where
  "location_common =
     [''    proxy_set_header Host $host;'',
      ''    proxy_set_header X-Real-IP $remote_addr;'',
      ''    proxy_set_header X-Forwarded-For $proxy_add_x_forwarded_for;'',
      [],
      ''    # CORS headers for browser access'',
      ''    add_header 'Access-Control-Allow-Origin' '*' always;'',
      ''    add_header 'Access-Control-Allow-Methods' 'GET, POST, OPTIONS' always;'',
      ''    add_header 'Access-Control-Allow-Headers' 'Authorization, Content-Type, X-API-Key' always;'',
      [],
      ''    # Handle preflight requests'',
      ''    if ($request_method = 'OPTIONS') {'',
      ''        add_header 'Access-Control-Allow-Origin' '*';'',
      ''        add_header 'Access-Control-Allow-Methods' 'GET, POST, OPTIONS';'',
      ''        add_header 'Access-Control-Allow-Headers' 'Authorization, Content-Type, X-API-Key';'',
      ''        add_header 'Access-Control-Max-Age' 1728000;'',
      ''        add_header 'Content-Type' 'text/plain; charset=utf-8';'',
      ''        add_header 'Content-Length' 0;'',
      ''        return 204;'',
      ''    }'',
      [],
      ''    # SSE support for streaming'',
      ''    proxy_set_header Connection '' @ [CHR 0x27, CHR 0x27] @ '';'',
      ''    proxy_http_version 1.1;'',
      ''    chunked_transfer_encoding off;'',
      ''    proxy_buffering off;'',
      ''    proxy_cache off;'',
      ''    proxy_read_timeout 300s;'',
      ''    proxy_send_timeout 300s;'',
      ''}'']"

definition chat_location :: "string \<Rightarrow> string list" where
  "chat_location MODEL_ABBR =
     [''location = /api/v1/'' @ MODEL_ABBR @ ''/chat/completions {'',
      ''    proxy_pass http://orchestrator/api/v1/'' @ MODEL_ABBR @ ''/chat/completions;'']
     @ location_common"

definition direct_location :: "string \<Rightarrow> string \<Rightarrow> string list" where
  "direct_location MODEL_ABBR container =
     [''location /api/v1/'' @ MODEL_ABBR @ ''/ {'',
      ''    proxy_pass http://'' @ container @ '':8000/v1/;'']
     @ location_common"

definition model_routes :: "string \<Rightarrow> string list" where
  "model_routes container =
     (let MODEL_ABBR = strip_prefix ''MIND_MODEL_'' container
      in [[],
          ''# Model: '' @ MODEL_ABBR @ '' (OpenAI-compatible API)'',
          [],
          ''# Route chat/completions through orchestrator for smart context management'']
         @ chat_location MODEL_ABBR
         @ [[],
            ''# Route all other endpoints directly to model'']
         @ direct_location MODEL_ABBR container)"

definition generate_routes :: "string list \<Rightarrow> string list" where
  "generate_routes RUNNING_MODELS =
     [[], ''# Auto-generated model routing configuration'']
     @ concat (map model_routes RUNNING_MODELS)"

text \<open>A line that opens a location block.\<close>

definition is_location_line :: "string \<Rightarrow> bool" where
  "is_location_line l = prefix ''location '' l"

text \<open>
  \<^verbatim>\<open>docker ps --format "{{.Names}}" | grep "^MIND_MODEL_"\<close>: the listed containers
  whose name has the reserved prefix.
\<close>

definition running_containers :: "container list \<Rightarrow> container list" where
  "running_containers docker_ps = filter (\<lambda>c. prefix ''MIND_MODEL_'' (c_name c)) docker_ps"

text \<open>
  The script: the catalog file, the containers that \<^verbatim>\<open>docker ps\<close> lists, whether the
  orchestrator answers its health check, whether \<^verbatim>\<open>nginx -s reload\<close> succeeds, and the
  keyspace. It returns the keyspace, the route file when it was written, and the
  messages.
\<close>

definition sync_redis ::
  "models_json \<Rightarrow> container list \<Rightarrow> bool \<Rightarrow> bool \<Rightarrow> redis
     \<Rightarrow> redis \<times> string list option \<times> log_event list"
where
  "sync_redis catalog docker_ps orchestrator_up reload_ok db =
     (let running = running_containers docker_ps;
          RUNNING_MODELS = map c_name running
      in if RUNNING_MODELS = []
         then (fold redis_del (redis_scan ''model:'' db) db, None, [NoContainers, CleanedAll])
         else
           let st1 = fold (sync_container catalog) running (db, []);
               st2 = fold (clean_key RUNNING_MODELS) (redis_scan ''model:'' (fst st1)) st1
           in if orchestrator_up
              then (fst st2, Some (generate_routes RUNNING_MODELS),
                    snd st2 @ [if reload_ok then RoutesRegenerated else NginxReloadFailed])
              else (fst st2, None, snd st2 @ [OrchestratorUnavailable]))"

section \<open>Properties of the chat playground\<close>

subsection \<open>Facts about the estimate and the loop\<close>

lemma ceil4_div: "ceil4 n = (int n + 3) div 4"
proof -
  have "\<lceil>real n / 4\<rceil> = \<lceil>real_of_int (int n) / real_of_int 4\<rceil>" by simp
  also have "\<dots> = - ((- int n) div 4)" by (simp only: ceiling_divide_eq_div)
  also have "\<dots> = (int n + 3) div 4" by presburger
  finally show ?thesis by (simp add: ceil4_def)
qed

lemma foldl_tokens_shift:
  "foldl (\<lambda>sum msg. sum + ceil4 (length (content msg))) a msgs
     = a + foldl (\<lambda>sum msg. sum + ceil4 (length (content msg))) 0 msgs"
proof (induction msgs arbitrary: a)
  case Nil
  show ?case by simp
next
  case (Cons m msgs)
  have "foldl (\<lambda>sum msg. sum + ceil4 (length (content msg))) a (m # msgs)
          = (a + ceil4 (length (content m)))
            + foldl (\<lambda>sum msg. sum + ceil4 (length (content msg))) 0 msgs"
    using Cons.IH [of "a + ceil4 (length (content m))"] by simp
  moreover have "foldl (\<lambda>sum msg. sum + ceil4 (length (content msg))) 0 (m # msgs)
          = ceil4 (length (content m))
            + foldl (\<lambda>sum msg. sum + ceil4 (length (content msg))) 0 msgs"
    using Cons.IH [of "0 + ceil4 (length (content m))"] by simp
  ultimately show ?case by simp
qed

lemma estimateTokens_Nil [simp]: "estimateTokens [] = 0"
  by (simp add: estimateTokens_def)

lemma estimateTokens_Cons [simp]:
  "estimateTokens (m # msgs) = (int (length (content m)) + 3) div 4 + estimateTokens msgs"
  using foldl_tokens_shift [of "0 + ceil4 (length (content m))" msgs]
  by (simp add: estimateTokens_def ceil4_div)

lemma estimateTokens_sum:
  "estimateTokens msgs = sum_list (map (\<lambda>m. ceil4 (length (content m))) msgs)"
  by (induction msgs) (simp_all add: ceil4_div)

lemma splice_1_1_Cons [simp]: "splice_1_1 (x # xs) = x # drop 1 xs"
  by (simp add: splice_1_1_def)

lemma length_splice_1_1: "2 < length ms \<Longrightarrow> length (splice_1_1 ms) = length ms - 1"
  unfolding splice_1_1_def by (cases ms) auto

lemma truncateLoop_iterations_bound:
  "truncateLoop_iterations R ms \<le> length ms - 2"
proof (induction R ms rule: truncateLoop_iterations.induct)
  case (1 R ms)
  show ?case
  proof (cases "estimateTokens ms + R > modelMaxContext - 50 \<and> length ms > 2")
    case True
    then have "truncateLoop_iterations R (splice_1_1 ms) \<le> length (splice_1_1 ms) - 2"
      using "1.IH" by simp
    moreover have "length (splice_1_1 ms) = length ms - 1"
      using True by (simp add: length_splice_1_1)
    moreover have "truncateLoop_iterations R ms = Suc (truncateLoop_iterations R (splice_1_1 ms))"
      using True by (subst truncateLoop_iterations.simps) simp
    ultimately show ?thesis
      using True by arith
  next
    case False
    then show ?thesis by (subst truncateLoop_iterations.simps) auto
  qed
qed

lemma truncateLoop_funpow:
  "truncateLoop R ms = (splice_1_1 ^^ truncateLoop_iterations R ms) ms"
proof (induction R ms rule: truncateLoop.induct)
  case (1 R ms)
  show ?case
  proof (cases "estimateTokens ms + R > modelMaxContext - 50 \<and> length ms > 2")
    case True
    then show ?thesis
      using "1.IH"
      by (subst truncateLoop.simps, subst truncateLoop_iterations.simps)
         (simp add: funpow_swap1)
  next
    case False
    then show ?thesis
      by (subst truncateLoop.simps, subst truncateLoop_iterations.simps) auto
  qed
qed

lemma truncateLoop_length:
  "length (truncateLoop R ms) = length ms - truncateLoop_iterations R ms"
proof (induction R ms rule: truncateLoop.induct)
  case (1 R ms)
  show ?case
  proof (cases "estimateTokens ms + R > modelMaxContext - 50 \<and> length ms > 2")
    case True
    moreover have "length (splice_1_1 ms) = length ms - 1"
      using True by (simp add: length_splice_1_1)
    ultimately show ?thesis
      using "1.IH"
      by (subst truncateLoop.simps, subst truncateLoop_iterations.simps) simp
  next
    case False
    then show ?thesis
      by (subst truncateLoop.simps, subst truncateLoop_iterations.simps) auto
  qed
qed

lemma truncateLoop_Cons:
  "truncateLoop R (x # xs) = x # drop (truncateLoop_iterations R (x # xs)) xs"
proof (induction xs)
  case Nil
  show ?case by (subst truncateLoop.simps) simp
next
  case (Cons y ys)
  show ?case
  proof (cases "estimateTokens (x # y # ys) + R > modelMaxContext - 50 \<and> length (x # y # ys) > 2")
    case True
    then show ?thesis
      using Cons.IH
      by (subst truncateLoop.simps, subst truncateLoop_iterations.simps) simp
  next
    case False
    then show ?thesis
      by (subst truncateLoop.simps, subst truncateLoop_iterations.simps) auto
  qed
qed

lemma truncateLoop_before:
  "i < truncateLoop_iterations R (x # xs) \<Longrightarrow>
     estimateTokens (x # drop i xs) + R > modelMaxContext - 50 \<and> length (x # drop i xs) > 2"
proof (induction xs arbitrary: i)
  case Nil
  then show ?case by (subst (asm) truncateLoop_iterations.simps) simp
next
  case (Cons y ys)
  show ?case
  proof (cases "estimateTokens (x # y # ys) + R > modelMaxContext - 50 \<and> length (x # y # ys) > 2")
    case True
    then have it: "truncateLoop_iterations R (x # y # ys) = Suc (truncateLoop_iterations R (x # ys))"
      by (subst truncateLoop_iterations.simps) simp
    show ?thesis
    proof (cases i)
      case 0
      then show ?thesis using True by simp
    next
      case (Suc i')
      then have "i' < truncateLoop_iterations R (x # ys)" using Cons.prems it by simp
      then show ?thesis using Cons.IH [of i'] Suc by simp
    qed
  next
    case False
    then have "truncateLoop_iterations R (x # y # ys) = 0"
      by (subst truncateLoop_iterations.simps) auto
    then show ?thesis using Cons.prems by simp
  qed
qed

lemma truncateLoop_exit:
  "\<not> (estimateTokens (truncateLoop R ms) + R > modelMaxContext - 50 \<and> length (truncateLoop R ms) > 2)"
proof (induction R ms rule: truncateLoop.induct)
  case (1 R ms)
  show ?case
  proof (cases "estimateTokens ms + R > modelMaxContext - 50 \<and> length ms > 2")
    case True
    then show ?thesis using "1.IH" by (subst (1 2) truncateLoop.simps) simp
  next
    case False
    then show ?thesis by (subst (1 2) truncateLoop.simps) auto
  qed
qed

lemma js_slice_last:
  assumes "0 < k" and "k \<le> length xs"
  shows "js_slice (- int k) (x # xs) = drop (length xs - k) xs"
proof -
  have "nat (max (int (length (x # xs)) + - int k) 0) = Suc (length xs - k)"
    using assms by (simp add: max_def)
  then show ?thesis
    using assms by (simp add: js_slice_def Let_def)
qed

lemma keptMessages_Cons:
  assumes "xs \<noteq> []"
  shows "keptMessages (x # xs) = x # drop (length xs - min 10 (length xs)) xs"
proof -
  have k: "min 10 (int (length (x # xs)) - 1) = int (min 10 (length xs))"
    by (simp add: min_def)
  have "0 < min 10 (length xs)" using assms by (simp add: min_def)
  then have "js_slice (- int (min 10 (length xs))) (x # xs)
               = drop (length xs - min 10 (length xs)) xs"
    by (intro js_slice_last) simp_all
  then show ?thesis
    unfolding keptMessages_def k by simp
qed

lemma allMessages_Cons:
  "allMessages sp ms um = \<lparr>role = ''system'', content = sp\<rparr> # nonSystemMessages ms um"
  by (simp add: allMessages_def nonSystemMessages_def)


lemma length_keptMessages_allMessages:
  "length (keptMessages (allMessages systemPrompt messages userMessage))
     \<le> length (allMessages systemPrompt messages userMessage)"
proof -
  have ne: "nonSystemMessages messages userMessage \<noteq> []"
    by (simp add: nonSystemMessages_def)
  show ?thesis
    unfolding allMessages_Cons keptMessages_Cons [OF ne] by simp
qed

subsection \<open>The forwarded request fits the context window\<close>

text \<open>
  Claim C1. Every request that the playground sends (a model is selected) fits the
  context window: the estimated tokens of the forwarded messages plus the forwarded
  \<open>max_tokens\<close> plus the buffer of 50 are at most \<open>W = 2048\<close>. The
  context-truncated flag is set to true exactly when the full message list with the
  requested \<open>max_tokens\<close> and the buffer exceeds \<open>W\<close>, and to false otherwise, in
  which case the message list is forwarded as it is.
\<close>

theorem chat_request_within_window:
  assumes "handleStreamingResponse models selectedModel systemPrompt messages maxTokens userMessage
             = Some call"
  shows "estimateTokens (rb_messages (requestBody call)) + rb_max_tokens (requestBody call) + 50
           \<le> modelMaxContext
         \<and> contextTruncated call
             = exceeds_budget maxTokens (allMessages systemPrompt messages userMessage)
         \<and> (\<not> contextTruncated call \<longrightarrow>
              rb_messages (requestBody call) = allMessages systemPrompt messages userMessage)"
proof -
  obtain model where "find (\<lambda>m. abbr m = selectedModel) models = Some model"
    using assms by (auto simp: handleStreamingResponse_def split: option.splits)
  then have call: "call = \<lparr>apiEndpoint = endpoint model @ ''/chat/completions'',
       requestBody = \<lparr>rb_messages = fst (messagesToSend_of maxTokens (allMessages systemPrompt messages userMessage)),
                      rb_stream = True,
                      rb_max_tokens = safeMaxTokens_of maxTokens
                         (fst (messagesToSend_of maxTokens (allMessages systemPrompt messages userMessage)))\<rparr>,
       contextTruncated = snd (messagesToSend_of maxTokens (allMessages systemPrompt messages userMessage))\<rparr>"
    using assms by (simp add: handleStreamingResponse_def Let_def split_beta)
  have "estimateTokens (rb_messages (requestBody call)) + rb_max_tokens (requestBody call) + 50
          \<le> modelMaxContext"
    unfolding call by (simp add: safeMaxTokens_of_def min_def)
  moreover have "contextTruncated call
          = exceeds_budget maxTokens (allMessages systemPrompt messages userMessage)"
    unfolding call by (auto simp: messagesToSend_of_def exceeds_budget_def)
  moreover have "\<not> contextTruncated call \<longrightarrow>
          rb_messages (requestBody call) = allMessages systemPrompt messages userMessage"
    unfolding call by (simp add: messagesToSend_of_def)
  ultimately show ?thesis by blast
qed

theorem chat_request_within_window_witness:
  "handleStreamingResponse [\<lparr>abbr = ''qwen1.5b'', endpoint = ''/api/v1/qwen1.5b''\<rparr>] ''qwen1.5b''
      ''You are a helpful assistant.''
      [\<lparr>role = ''user'', content = ''Hi''\<rparr>, \<lparr>role = ''assistant'', content = ''Hello there''\<rparr>]
      2000 \<lparr>role = ''user'', content = ''Bye''\<rparr>
    = Some \<lparr>apiEndpoint = ''/api/v1/qwen1.5b/chat/completions'',
            requestBody = \<lparr>rb_messages = [\<lparr>role = ''system'', content = ''You are a helpful assistant.''\<rparr>,
                                           \<lparr>role = ''user'', content = ''Bye''\<rparr>],
                           rb_stream = True, rb_max_tokens = 1990\<rparr>,
            contextTruncated = True\<rparr>
   \<and> estimateTokens [\<lparr>role = ''system'', content = ''You are a helpful assistant.''\<rparr>,
                      \<lparr>role = ''user'', content = ''Bye''\<rparr>] + 1990 + 50 \<le> modelMaxContext"
proof -
  have run: "handleStreamingResponse [\<lparr>abbr = ''qwen1.5b'', endpoint = ''/api/v1/qwen1.5b''\<rparr>] ''qwen1.5b''
      ''You are a helpful assistant.''
      [\<lparr>role = ''user'', content = ''Hi''\<rparr>, \<lparr>role = ''assistant'', content = ''Hello there''\<rparr>]
      2000 \<lparr>role = ''user'', content = ''Bye''\<rparr>
    = Some \<lparr>apiEndpoint = ''/api/v1/qwen1.5b/chat/completions'',
            requestBody = \<lparr>rb_messages = [\<lparr>role = ''system'', content = ''You are a helpful assistant.''\<rparr>,
                                           \<lparr>role = ''user'', content = ''Bye''\<rparr>],
                           rb_stream = True, rb_max_tokens = 1990\<rparr>,
            contextTruncated = True\<rparr>"
    by (simp add: handleStreamingResponse_def allMessages_def messagesToSend_of_def
          safeMaxTokens_of_def keptMessages_def js_slice_def modelMaxContext_def
          truncateLoop.simps)
  show ?thesis
    using chat_request_within_window [OF run] run by simp
qed

subsection \<open>The token estimate\<close>

text \<open>
  The specification adds a role overhead of 4 tokens to every message. The playground's
  estimate has none: a message of four characters counts 1 token, not 5.
\<close>

theorem estimate_role_overhead_counterexample:
  "estimateTokens [\<lparr>role = ''user'', content = ''abcd''\<rparr>] = 1
   \<and> spec_input_tokens [\<lparr>role = ''user'', content = ''abcd''\<rparr>] = 5"
  by (simp add: spec_input_tokens_def spec_message_tokens_def)

text \<open>
  Claim C2, as amended. The input token count is estimated per message as
  \<open>ceil(len(content) / 4)\<close>, with no role overhead, and the per-message estimates are
  summed; the sum is the specification's count less 4 for each message.
\<close>

theorem estimateTokens_per_message:
  "estimateTokens msgs = sum_list (map (\<lambda>m. \<lceil>real (length (content m)) / 4\<rceil>) msgs)
   \<and> estimateTokens msgs = spec_input_tokens msgs - 4 * int (length msgs)"
proof -
  have a: "estimateTokens msgs = sum_list (map (\<lambda>m. \<lceil>real (length (content m)) / 4\<rceil>) msgs)"
    using estimateTokens_sum [of msgs] by (simp add: ceil4_def)
  have b: "spec_input_tokens msgs = estimateTokens msgs + 4 * int (length msgs)"
    by (induction msgs) (simp_all add: spec_input_tokens_def spec_message_tokens_def ceil4_div [unfolded ceil4_def])
  show ?thesis using a b by simp
qed

subsection \<open>The truncation loop\<close>

text \<open>
  Claim C10. The truncation loop terminates on every message list (the function that
  models it is total): it runs the body \<open>truncateLoop_iterations\<close> times, each run
  removes exactly one message, and the number of runs is at most the length of the list
  less 2; on the list kept by the truncation path it is at most the number of all
  messages less 2.
\<close>

theorem truncateLoop_terminates:
  "truncateLoop_iterations maxTokens msgs \<le> length msgs - 2
   \<and> truncateLoop maxTokens msgs = (splice_1_1 ^^ truncateLoop_iterations maxTokens msgs) msgs
   \<and> length (truncateLoop maxTokens msgs) = length msgs - truncateLoop_iterations maxTokens msgs
   \<and> truncateLoop_iterations maxTokens (keptMessages (allMessages systemPrompt messages userMessage))
       \<le> length (allMessages systemPrompt messages userMessage) - 2"
proof -
  have "truncateLoop_iterations maxTokens (keptMessages (allMessages systemPrompt messages userMessage))
       \<le> length (allMessages systemPrompt messages userMessage) - 2"
    using truncateLoop_iterations_bound
            [of maxTokens "keptMessages (allMessages systemPrompt messages userMessage)"]
      length_keptMessages_allMessages [of systemPrompt messages userMessage]
    by linarith
  then show ?thesis
    using truncateLoop_iterations_bound [of maxTokens msgs]
      truncateLoop_funpow [of maxTokens msgs] truncateLoop_length [of maxTokens msgs]
    by simp
qed

text \<open>
  Claim C3. On the truncation path the first message is the system prompt and is kept;
  the messages after it are the non-system messages, of which the last
  \<open>k = min(10, len(messages) - 1)\<close> are kept; then the oldest kept non-system message
  is dropped, one per iteration, as long as the kept list with the requested
  \<open>max_tokens\<close> (the \<open>R\<close> of the loop test) and the buffer exceeds \<open>W\<close> and more
  than two messages remain: \<open>j\<close> messages are dropped, the test holds before each of
  the \<open>j\<close> iterations and fails after the last.
\<close>

theorem truncation_path_keeps_recent:
  assumes "role userMessage \<noteq> ''system''"
    and "exceeds_budget maxTokens (allMessages systemPrompt messages userMessage)"
  shows "let all = allMessages systemPrompt messages userMessage;
             nonsys = nonSystemMessages messages userMessage;
             kept = last_n (min 10 (length all - 1)) nonsys;
             j = truncateLoop_iterations maxTokens (all ! 0 # kept)
         in role (all ! 0) = ''system''
          \<and> all = all ! 0 # nonsys
          \<and> (\<forall>m \<in> set nonsys. role m \<noteq> ''system'')
          \<and> keptMessages all = all ! 0 # kept
          \<and> fst (messagesToSend_of maxTokens all) = all ! 0 # drop j kept
          \<and> (\<forall>i<j. exceeds_budget maxTokens (all ! 0 # drop i kept)
                    \<and> length (all ! 0 # drop i kept) > 2)
          \<and> \<not> (exceeds_budget maxTokens (all ! 0 # drop j kept)
                \<and> length (all ! 0 # drop j kept) > 2)"
proof -
  define sys where "sys = \<lparr>role = ''system'', content = systemPrompt\<rparr>"
  define nonsys where "nonsys = nonSystemMessages messages userMessage"
  define kept where "kept = last_n (min 10 (length (sys # nonsys) - 1)) nonsys"
  define j where "j = truncateLoop_iterations maxTokens (sys # kept)"
  have all: "allMessages systemPrompt messages userMessage = sys # nonsys"
    by (simp add: allMessages_Cons sys_def nonsys_def)
  have ne: "nonsys \<noteq> []"
    by (simp add: nonsys_def nonSystemMessages_def)
  have roles: "\<forall>m \<in> set nonsys. role m \<noteq> ''system''"
    using assms(1) by (auto simp: nonsys_def nonSystemMessages_def)
  have keptm: "keptMessages (sys # nonsys) = sys # kept"
    using keptMessages_Cons [OF ne, of sys] by (simp add: kept_def last_n_def)
  have path: "estimateTokens (sys # nonsys) + maxTokens > modelMaxContext - 50"
    using assms(2) by (simp add: all exceeds_budget_def)
  have sent: "fst (messagesToSend_of maxTokens (sys # nonsys)) = sys # drop j kept"
    using path truncateLoop_Cons [of maxTokens sys kept]
    by (simp add: messagesToSend_of_def keptm j_def)
  have before: "\<forall>i<j. exceeds_budget maxTokens (sys # drop i kept)
                      \<and> length (sys # drop i kept) > 2"
  proof (intro allI impI)
    fix i assume "i < j"
    then have "estimateTokens (sys # drop i kept) + maxTokens > modelMaxContext - 50
               \<and> length (sys # drop i kept) > 2"
      unfolding j_def by (rule truncateLoop_before)
    then show "exceeds_budget maxTokens (sys # drop i kept) \<and> length (sys # drop i kept) > 2"
      unfolding exceeds_budget_def by linarith
  qed
  have after: "\<not> (exceeds_budget maxTokens (sys # drop j kept) \<and> length (sys # drop j kept) > 2)"
    using truncateLoop_exit [of maxTokens "sys # kept"] truncateLoop_Cons [of maxTokens sys kept]
    by (simp add: j_def exceeds_budget_def)
  have sysrole: "role sys = ''system''" by (simp add: sys_def)
  have hd: "(sys # nonsys) ! 0 = sys" by simp
  show ?thesis
    unfolding Let_def all nonsys_def [symmetric] hd kept_def [symmetric] j_def [symmetric]
    using sysrole roles keptm sent before after by blast
qed

theorem truncation_path_keeps_recent_witness:
  "role \<lparr>role = ''user'', content = ''Bye''\<rparr> \<noteq> ''system''
   \<and> exceeds_budget 1987 (allMessages ''You are a helpful assistant.''
        [\<lparr>role = ''user'', content = ''Hi''\<rparr>, \<lparr>role = ''assistant'', content = ''Hello there''\<rparr>]
        \<lparr>role = ''user'', content = ''Bye''\<rparr>)
   \<and> truncateLoop_iterations 1987
        [\<lparr>role = ''system'', content = ''You are a helpful assistant.''\<rparr>,
         \<lparr>role = ''user'', content = ''Hi''\<rparr>, \<lparr>role = ''assistant'', content = ''Hello there''\<rparr>,
         \<lparr>role = ''user'', content = ''Bye''\<rparr>] = 1
   \<and> fst (messagesToSend_of 1987 (allMessages ''You are a helpful assistant.''
        [\<lparr>role = ''user'', content = ''Hi''\<rparr>, \<lparr>role = ''assistant'', content = ''Hello there''\<rparr>]
        \<lparr>role = ''user'', content = ''Bye''\<rparr>))
      = [\<lparr>role = ''system'', content = ''You are a helpful assistant.''\<rparr>,
         \<lparr>role = ''assistant'', content = ''Hello there''\<rparr>,
         \<lparr>role = ''user'', content = ''Bye''\<rparr>]"
proof -
  have r: "role \<lparr>role = ''user'', content = ''Bye''\<rparr> \<noteq> ''system''" by simp
  have e: "exceeds_budget 1987 (allMessages ''You are a helpful assistant.''
        [\<lparr>role = ''user'', content = ''Hi''\<rparr>, \<lparr>role = ''assistant'', content = ''Hello there''\<rparr>]
        \<lparr>role = ''user'', content = ''Bye''\<rparr>)"
    by (simp add: exceeds_budget_def allMessages_def modelMaxContext_def)
  have j: "truncateLoop_iterations 1987
        [\<lparr>role = ''system'', content = ''You are a helpful assistant.''\<rparr>,
         \<lparr>role = ''user'', content = ''Hi''\<rparr>, \<lparr>role = ''assistant'', content = ''Hello there''\<rparr>,
         \<lparr>role = ''user'', content = ''Bye''\<rparr>] = 1"
    by (simp add: truncateLoop_iterations.simps modelMaxContext_def)
  show ?thesis
    using truncation_path_keeps_recent [OF r e] r e j
    by (simp add: Let_def allMessages_def nonSystemMessages_def last_n_def)
qed

subsection \<open>The budget\<close>

text \<open>
  The specification caps the budget at \<open>floor(W / 2) = 1024\<close>. The playground does
  not: with \<open>max_tokens = 1900\<close> and a short conversation the request fits with the
  capped budget, and is forwarded with \<open>max_tokens = 1900\<close>.
\<close>

theorem budget_cap_counterexample:
  "exceeds_budget (spec_R 1900)
      (allMessages ''You are a helpful assistant.'' [] \<lparr>role = ''user'', content = ''Hello''\<rparr>) = False
   \<and> spec_R 1900 = 1024
   \<and> map_option (rb_max_tokens \<circ> requestBody)
        (handleStreamingResponse [\<lparr>abbr = ''qwen1.5b'', endpoint = ''/api/v1/qwen1.5b''\<rparr>] ''qwen1.5b''
           ''You are a helpful assistant.'' [] 1900 \<lparr>role = ''user'', content = ''Hello''\<rparr>)
      = Some 1900"
  by (simp add: handleStreamingResponse_def allMessages_def messagesToSend_of_def
        safeMaxTokens_of_def modelMaxContext_def spec_R_def exceeds_budget_def)

text \<open>
  Claim C4, as amended. The budget \<open>R\<close> is the requested \<open>max_tokens\<close> itself, with
  no cap at \<open>floor(W / 2)\<close>, and \<open>B = 50\<close>; whenever
  \<open>input_tokens + R + B \<le> W\<close> the message list is forwarded unchanged with
  \<open>max_tokens\<close> set exactly to \<open>R\<close>, and the context-truncated flag is false.
\<close>

theorem forward_unchanged_within_budget:
  assumes "handleStreamingResponse models selectedModel systemPrompt messages maxTokens userMessage
             = Some call"
    and "estimateTokens (allMessages systemPrompt messages userMessage) + maxTokens + 50
           \<le> modelMaxContext"
  shows "rb_messages (requestBody call) = allMessages systemPrompt messages userMessage
         \<and> rb_max_tokens (requestBody call) = maxTokens
         \<and> \<not> contextTruncated call"
proof -
  obtain model where "find (\<lambda>m. abbr m = selectedModel) models = Some model"
    using assms(1) by (auto simp: handleStreamingResponse_def split: option.splits)
  then have call: "call = \<lparr>apiEndpoint = endpoint model @ ''/chat/completions'',
       requestBody = \<lparr>rb_messages = fst (messagesToSend_of maxTokens (allMessages systemPrompt messages userMessage)),
                      rb_stream = True,
                      rb_max_tokens = safeMaxTokens_of maxTokens
                         (fst (messagesToSend_of maxTokens (allMessages systemPrompt messages userMessage)))\<rparr>,
       contextTruncated = snd (messagesToSend_of maxTokens (allMessages systemPrompt messages userMessage))\<rparr>"
    using assms(1) by (simp add: handleStreamingResponse_def Let_def split_beta)
  have path: "messagesToSend_of maxTokens (allMessages systemPrompt messages userMessage)
          = (allMessages systemPrompt messages userMessage, False)"
    using assms(2) by (simp add: messagesToSend_of_def)
  show ?thesis
    unfolding call path using assms(2) by (simp add: safeMaxTokens_of_def min_def)
qed

theorem forward_unchanged_within_budget_witness:
  "handleStreamingResponse [\<lparr>abbr = ''qwen1.5b'', endpoint = ''/api/v1/qwen1.5b''\<rparr>] ''qwen1.5b''
      ''You are a helpful assistant.'' [] 1900 \<lparr>role = ''user'', content = ''Hello''\<rparr>
    = Some \<lparr>apiEndpoint = ''/api/v1/qwen1.5b/chat/completions'',
            requestBody = \<lparr>rb_messages = [\<lparr>role = ''system'', content = ''You are a helpful assistant.''\<rparr>,
                                           \<lparr>role = ''user'', content = ''Hello''\<rparr>],
                           rb_stream = True, rb_max_tokens = 1900\<rparr>,
            contextTruncated = False\<rparr>
   \<and> estimateTokens (allMessages ''You are a helpful assistant.'' [] \<lparr>role = ''user'', content = ''Hello''\<rparr>)
        + 1900 + 50 \<le> modelMaxContext"
proof -
  have run: "handleStreamingResponse [\<lparr>abbr = ''qwen1.5b'', endpoint = ''/api/v1/qwen1.5b''\<rparr>] ''qwen1.5b''
      ''You are a helpful assistant.'' [] 1900 \<lparr>role = ''user'', content = ''Hello''\<rparr>
    = Some \<lparr>apiEndpoint = ''/api/v1/qwen1.5b/chat/completions'',
            requestBody = \<lparr>rb_messages = [\<lparr>role = ''system'', content = ''You are a helpful assistant.''\<rparr>,
                                           \<lparr>role = ''user'', content = ''Hello''\<rparr>],
                           rb_stream = True, rb_max_tokens = 1900\<rparr>,
            contextTruncated = False\<rparr>"
    by (simp add: handleStreamingResponse_def allMessages_def messagesToSend_of_def
          safeMaxTokens_of_def modelMaxContext_def)
  have fits: "estimateTokens (allMessages ''You are a helpful assistant.'' [] \<lparr>role = ''user'', content = ''Hello''\<rparr>)
        + 1900 + 50 \<le> modelMaxContext"
    by (simp add: allMessages_def modelMaxContext_def)
  show ?thesis
    using forward_unchanged_within_budget [OF run fits] run fits by simp
qed

text \<open>
  The specification shrinks the budget to \<open>max(64, W - input_tokens - B)\<close>. The
  playground has no floor: a user message of 7800 characters gives
  \<open>input_tokens = 1957\<close>, and the request is sent with \<open>max_tokens = 41\<close>, not 64.
\<close>

theorem shrink_floor_counterexample:
  "map_option (estimateTokens \<circ> rb_messages \<circ> requestBody)
        (handleStreamingResponse [\<lparr>abbr = ''qwen1.5b'', endpoint = ''/api/v1/qwen1.5b''\<rparr>] ''qwen1.5b''
           ''You are a helpful assistant.'' [] 512 \<lparr>role = ''user'', content = replicate 7800 CHR ''a''\<rparr>)
      = Some 1957
   \<and> map_option (rb_max_tokens \<circ> requestBody)
        (handleStreamingResponse [\<lparr>abbr = ''qwen1.5b'', endpoint = ''/api/v1/qwen1.5b''\<rparr>] ''qwen1.5b''
           ''You are a helpful assistant.'' [] 512 \<lparr>role = ''user'', content = replicate 7800 CHR ''a''\<rparr>)
      = Some 41
   \<and> spec_shrunk_R 1957 = 64"
  by (simp add: handleStreamingResponse_def allMessages_def messagesToSend_of_def
        safeMaxTokens_of_def modelMaxContext_def spec_shrunk_R_def keptMessages_def js_slice_def
        truncateLoop.simps)

text \<open>
  Claim C5, as amended. When the forwarded message list with the requested
  \<open>max_tokens\<close> and the buffer still exceeds \<open>W\<close>, the list is the minimal one (at
  most two messages, the truncation flag set); when \<open>W - input_tokens - B\<close> is
  positive there, \<open>max_tokens\<close> is shrunk to exactly that value, with no floor of 64.
\<close>

theorem shrunk_max_tokens:
  assumes "handleStreamingResponse models selectedModel systemPrompt messages maxTokens userMessage
             = Some call"
    and "exceeds_budget maxTokens (rb_messages (requestBody call))"
    and "0 < modelMaxContext - estimateTokens (rb_messages (requestBody call)) - 50"
  shows "rb_max_tokens (requestBody call)
           = modelMaxContext - estimateTokens (rb_messages (requestBody call)) - 50
         \<and> 0 < rb_max_tokens (requestBody call)
         \<and> rb_max_tokens (requestBody call) < maxTokens
         \<and> length (rb_messages (requestBody call)) \<le> 2
         \<and> contextTruncated call"
proof -
  let ?all = "allMessages systemPrompt messages userMessage"
  obtain model where "find (\<lambda>m. abbr m = selectedModel) models = Some model"
    using assms(1) by (auto simp: handleStreamingResponse_def split: option.splits)
  then have call: "call = \<lparr>apiEndpoint = endpoint model @ ''/chat/completions'',
       requestBody = \<lparr>rb_messages = fst (messagesToSend_of maxTokens ?all),
                      rb_stream = True,
                      rb_max_tokens = safeMaxTokens_of maxTokens (fst (messagesToSend_of maxTokens ?all))\<rparr>,
       contextTruncated = snd (messagesToSend_of maxTokens ?all)\<rparr>"
    using assms(1) by (simp add: handleStreamingResponse_def Let_def split_beta)
  have over: "exceeds_budget maxTokens (fst (messagesToSend_of maxTokens ?all))"
    using assms(2) by (simp add: call)
  have trunc: "estimateTokens ?all + maxTokens > modelMaxContext - 50"
  proof (rule ccontr)
    assume "\<not> estimateTokens ?all + maxTokens > modelMaxContext - 50"
    then have "messagesToSend_of maxTokens ?all = (?all, False)"
      "\<not> exceeds_budget maxTokens ?all"
      by (simp_all add: messagesToSend_of_def exceeds_budget_def)
    then show False using over by simp
  qed
  then have path: "messagesToSend_of maxTokens ?all
        = (truncateLoop maxTokens (keptMessages ?all), True)"
    by (simp add: messagesToSend_of_def)
  have over': "estimateTokens (truncateLoop maxTokens (keptMessages ?all)) + maxTokens
          > modelMaxContext - 50"
    using over by (simp add: path exceeds_budget_def)
  then have short: "length (truncateLoop maxTokens (keptMessages ?all)) \<le> 2"
    using truncateLoop_exit [of maxTokens "keptMessages ?all"] by auto
  have pos: "0 < modelMaxContext - estimateTokens (truncateLoop maxTokens (keptMessages ?all)) - 50"
    using assms(3) by (simp add: call path)
  show ?thesis
    unfolding call path using over' short pos by (simp add: safeMaxTokens_of_def min_def)
qed

theorem shrunk_max_tokens_witness:
  "handleStreamingResponse [\<lparr>abbr = ''qwen1.5b'', endpoint = ''/api/v1/qwen1.5b''\<rparr>] ''qwen1.5b''
        ''You are a helpful assistant.'' [] 512 \<lparr>role = ''user'', content = replicate 7800 CHR ''a''\<rparr>
     = Some \<lparr>apiEndpoint = ''/api/v1/qwen1.5b/chat/completions'',
            requestBody = \<lparr>rb_messages = [\<lparr>role = ''system'', content = ''You are a helpful assistant.''\<rparr>,
                                           \<lparr>role = ''user'', content = replicate 7800 CHR ''a''\<rparr>],
                           rb_stream = True, rb_max_tokens = 41\<rparr>,
            contextTruncated = True\<rparr>
   \<and> exceeds_budget 512 [\<lparr>role = ''system'', content = ''You are a helpful assistant.''\<rparr>,
                          \<lparr>role = ''user'', content = replicate 7800 CHR ''a''\<rparr>]
   \<and> modelMaxContext
        - estimateTokens [\<lparr>role = ''system'', content = ''You are a helpful assistant.''\<rparr>,
                          \<lparr>role = ''user'', content = replicate 7800 CHR ''a''\<rparr>] - 50 = 41"
proof -
  let ?call = "\<lparr>apiEndpoint = ''/api/v1/qwen1.5b/chat/completions'',
            requestBody = \<lparr>rb_messages = [\<lparr>role = ''system'', content = ''You are a helpful assistant.''\<rparr>,
                                           \<lparr>role = ''user'', content = replicate 7800 CHR ''a''\<rparr>],
                           rb_stream = True, rb_max_tokens = 41\<rparr>,
            contextTruncated = True\<rparr>"
  have run: "handleStreamingResponse [\<lparr>abbr = ''qwen1.5b'', endpoint = ''/api/v1/qwen1.5b''\<rparr>] ''qwen1.5b''
        ''You are a helpful assistant.'' [] 512 \<lparr>role = ''user'', content = replicate 7800 CHR ''a''\<rparr>
     = Some ?call"
    by (simp add: handleStreamingResponse_def allMessages_def messagesToSend_of_def
          safeMaxTokens_of_def modelMaxContext_def keptMessages_def js_slice_def
          truncateLoop.simps)
  have over: "exceeds_budget 512 (rb_messages (requestBody ?call))"
    by (simp add: exceeds_budget_def modelMaxContext_def)
  have pos: "0 < modelMaxContext - estimateTokens (rb_messages (requestBody ?call)) - 50"
    by (simp add: modelMaxContext_def)
  show ?thesis
    using shrunk_max_tokens [OF run over pos] run over by simp
qed

section \<open>Properties of the reconciliation script\<close>

subsection \<open>Facts about the keyspace operations\<close>

lemma map_of_redis_del: "map_of (redis_del key db) k = (if k = key then None else map_of db k)"
  by (induction db) (auto simp: redis_del_def)

lemma redis_exists_del:
  "redis_exists k (redis_del key db) = (k \<noteq> key \<and> redis_exists k db)"
  by (simp add: redis_exists_def map_of_redis_del)

lemma redis_exists_set:
  "redis_exists k (redis_set key v db) = (k = key \<or> redis_exists k db)"
  by (simp add: redis_exists_def redis_set_def map_of_redis_del)

lemma redis_exists_hset:
  "redis_exists k (redis_hset key fvs db) = (k = key \<or> redis_exists k db)"
  by (auto simp: redis_exists_def redis_hset_def map_of_redis_del
           split: option.splits rvalue.splits)

lemma sync_container_keeps:
  "redis_exists k (fst st) \<Longrightarrow> redis_exists k (fst (sync_container catalog c st))"
  by (simp add: sync_container_def Let_def redis_exists_set redis_exists_hset)

lemma fold_sync_container_keeps:
  "redis_exists k (fst st) \<Longrightarrow> redis_exists k (fst (fold (sync_container catalog) cs st))"
proof (induction cs arbitrary: st)
  case Nil
  then show ?case by simp
next
  case (Cons c cs)
  have "redis_exists k (fst (sync_container catalog c st))"
    using Cons.prems by (rule sync_container_keeps)
  then show ?case
    using Cons.IH [of "sync_container catalog c st"] by simp
qed

lemma clean_key_exists:
  "redis_exists k (fst (clean_key R key st))
     = (redis_exists k (fst st)
        \<and> \<not> (\<not> grep_q (''MIND_MODEL_'' @ strip_prefix ''model:'' key) R
              \<and> (k = key \<or> k = ''gpu_assignment:'' @ strip_prefix ''model:'' key)))"
  by (auto simp: clean_key_def Let_def redis_exists_del)

lemma clean_key_model_exists:
  "redis_exists (''model:'' @ a) (fst (clean_key R key st))
     = (redis_exists (''model:'' @ a) (fst st)
        \<and> \<not> (key = ''model:'' @ a \<and> \<not> grep_q (''MIND_MODEL_'' @ a) R))"
proof (cases "key = ''model:'' @ a")
  case True
  have "strip_prefix ''model:'' (''model:'' @ a) = a"
    by (simp add: strip_prefix_def)
  then show ?thesis
    using True clean_key_exists [of "''model:'' @ a" R key st] by auto
next
  case False
  have "''model:'' @ a \<noteq> ''gpu_assignment:'' @ strip_prefix ''model:'' key"
    by simp
  then show ?thesis
    using False clean_key_exists [of "''model:'' @ a" R key st] by auto
qed

lemma fold_clean_key_model_exists:
  "redis_exists (''model:'' @ a) (fst (fold (clean_key R) keys st))
     = (redis_exists (''model:'' @ a) (fst st)
        \<and> \<not> (''model:'' @ a \<in> set keys \<and> \<not> grep_q (''MIND_MODEL_'' @ a) R))"
proof (induction keys arbitrary: st)
  case Nil
  show ?case by simp
next
  case (Cons key keys)
  show ?case
    using Cons.IH [of "clean_key R key st"] clean_key_model_exists [of a R key st]
    by auto
qed

lemma fold_redis_del_exists:
  "redis_exists k (fold redis_del keys db) = (redis_exists k db \<and> k \<notin> set keys)"
proof (induction keys arbitrary: db)
  case Nil
  show ?case by simp
next
  case (Cons key keys)
  show ?case
    using Cons.IH [of "redis_del key db"] by (auto simp: redis_exists_del)
qed

lemma redis_scan_iff: "k \<in> set (redis_scan p db) \<longleftrightarrow> prefix p k \<and> redis_exists k db"
  by (auto simp: redis_scan_def redis_exists_def map_of_eq_None_iff image_iff)

lemma model_key_scanned:
  "''model:'' @ a \<in> set (redis_scan ''model:'' db) \<longleftrightarrow> redis_exists (''model:'' @ a) db"
  using redis_scan_iff [of "''model:'' @ a" "''model:''" db] by simp

lemma regex_line_match_refl: "regex_line_match s s"
  by (simp add: regex_line_match_def list_all2_same)

lemma grep_q_exact: "s \<in> set lines \<Longrightarrow> grep_q s lines"
  by (auto simp: grep_q_def list_ex_iff intro: regex_line_match_refl)

lemma grep_q_Nil: "\<not> grep_q pat []"
  by (simp add: grep_q_def)

subsection \<open>Which records reconciliation deletes\<close>

text \<open>
  The specification lets only records with status running or deploying be deleted.
  The script looks at no status: a record with status stopped is deleted when no
  container runs at all, and when another container runs but not its own.
\<close>

theorem stopped_record_deleted_counterexample:
  "redis_hget ''model:qwen1.5b'' ''status''
      [(''model:qwen1.5b'', RHash [(''abbr'', ''qwen1.5b''), (''status'', ''stopped'')])] = ''stopped''
   \<and> fst (sync_redis NotFound [] False False
        [(''model:qwen1.5b'', RHash [(''abbr'', ''qwen1.5b''), (''status'', ''stopped'')])]) = []
   \<and> fst (sync_redis NotFound
        [\<lparr>c_name = ''MIND_MODEL_llama8b'', c_inspect_ok = True, c_env = [], c_args = [],
          c_status = ''running'', c_broken_lookup = []\<rparr>] False False
        [(''model:qwen1.5b'', RHash [(''abbr'', ''qwen1.5b''), (''status'', ''stopped'')])]) = []"
  by (simp add: sync_redis_def running_containers_def redis_scan_def redis_del_def redis_hget_def
        sync_container_def clean_key_def strip_prefix_def grep_q_def regex_line_match_def
        gpu_device_of_def)

text \<open>
  Claim C7, as amended. During reconciliation a record \<open>model:{abbr}\<close> is deleted
  whenever the name \<open>MIND_MODEL_{abbr}\<close> matches no running container, whatever its
  status (stopped records included) and with no lock consulted; a record whose
  container \<open>MIND_MODEL_{abbr}\<close> is among the running containers is never deleted.
\<close>

theorem reconcile_deletes_without_container:
  "(\<not> grep_q (''MIND_MODEL_'' @ a) (map c_name (running_containers docker_ps)) \<longrightarrow>
      \<not> redis_exists (''model:'' @ a) (fst (sync_redis catalog docker_ps orchestrator_up reload_ok db)))
   \<and> (''MIND_MODEL_'' @ a \<in> set (map c_name (running_containers docker_ps))
        \<and> redis_exists (''model:'' @ a) db \<longrightarrow>
      redis_exists (''model:'' @ a) (fst (sync_redis catalog docker_ps orchestrator_up reload_ok db)))"
proof (cases "map c_name (running_containers docker_ps) = []")
  case True
  then have "fst (sync_redis catalog docker_ps orchestrator_up reload_ok db)
               = fold redis_del (redis_scan ''model:'' db) db"
    by (simp add: sync_redis_def)
  then have "\<not> redis_exists (''model:'' @ a) (fst (sync_redis catalog docker_ps orchestrator_up reload_ok db))"
    using fold_redis_del_exists [of "''model:'' @ a" "redis_scan ''model:'' db" db]
      model_key_scanned [of a db] by simp
  then show ?thesis using True by simp
next
  case False
  define R where "R = map c_name (running_containers docker_ps)"
  define st1 where "st1 = fold (sync_container catalog) (running_containers docker_ps) (db, [])"
  have res: "fst (sync_redis catalog docker_ps orchestrator_up reload_ok db)
               = fst (fold (clean_key R) (redis_scan ''model:'' (fst st1)) st1)"
    using False by (simp add: sync_redis_def Let_def R_def st1_def)
  have look: "redis_exists (''model:'' @ a) (fst (sync_redis catalog docker_ps orchestrator_up reload_ok db))
      = (redis_exists (''model:'' @ a) (fst st1) \<and> grep_q (''MIND_MODEL_'' @ a) R)"
    unfolding res
    using fold_clean_key_model_exists [of a R "redis_scan ''model:'' (fst st1)" st1]
      model_key_scanned [of a "fst st1"] by auto
  have del: "\<not> grep_q (''MIND_MODEL_'' @ a) R \<longrightarrow>
      \<not> redis_exists (''model:'' @ a) (fst (sync_redis catalog docker_ps orchestrator_up reload_ok db))"
    unfolding look by auto
  have keep: "''MIND_MODEL_'' @ a \<in> set R \<and> redis_exists (''model:'' @ a) db \<longrightarrow>
      redis_exists (''model:'' @ a) (fst (sync_redis catalog docker_ps orchestrator_up reload_ok db))"
  proof (intro impI, elim conjE)
    assume r: "''MIND_MODEL_'' @ a \<in> set R" and p: "redis_exists (''model:'' @ a) db"
    have "redis_exists (''model:'' @ a) (fst st1)"
      unfolding st1_def using p by (intro fold_sync_container_keeps) simp
    moreover have "grep_q (''MIND_MODEL_'' @ a) R" using r by (rule grep_q_exact)
    ultimately show "redis_exists (''model:'' @ a) (fst (sync_redis catalog docker_ps orchestrator_up reload_ok db))"
      unfolding look by simp
  qed
  show ?thesis using del keep unfolding R_def by blast
qed

theorem reconcile_deletes_without_container_witness:
  "\<not> grep_q ''MIND_MODEL_llama8b''
        (map c_name (running_containers
           [\<lparr>c_name = ''MIND_MODEL_qwen1.5b'', c_inspect_ok = True, c_env = [], c_args = [],
             c_status = ''running'', c_broken_lookup = []\<rparr>]))
   \<and> \<not> redis_exists ''model:llama8b''
        (fst (sync_redis NotFound
           [\<lparr>c_name = ''MIND_MODEL_qwen1.5b'', c_inspect_ok = True, c_env = [], c_args = [],
             c_status = ''running'', c_broken_lookup = []\<rparr>] False False
           [(''model:qwen1.5b'', RHash [(''status'', ''stopped'')]),
            (''model:llama8b'', RHash [(''status'', ''stopped'')])]))
   \<and> ''MIND_MODEL_qwen1.5b''
        \<in> set (map c_name (running_containers
           [\<lparr>c_name = ''MIND_MODEL_qwen1.5b'', c_inspect_ok = True, c_env = [], c_args = [],
             c_status = ''running'', c_broken_lookup = []\<rparr>]))
   \<and> redis_exists ''model:qwen1.5b''
        [(''model:qwen1.5b'', RHash [(''status'', ''stopped'')]),
         (''model:llama8b'', RHash [(''status'', ''stopped'')])]
   \<and> redis_exists ''model:qwen1.5b''
        (fst (sync_redis NotFound
           [\<lparr>c_name = ''MIND_MODEL_qwen1.5b'', c_inspect_ok = True, c_env = [], c_args = [],
             c_status = ''running'', c_broken_lookup = []\<rparr>] False False
           [(''model:qwen1.5b'', RHash [(''status'', ''stopped'')]),
            (''model:llama8b'', RHash [(''status'', ''stopped'')])]))"
proof -
  have g: "\<not> grep_q ''MIND_MODEL_llama8b''
        (map c_name (running_containers
           [\<lparr>c_name = ''MIND_MODEL_qwen1.5b'', c_inspect_ok = True, c_env = [], c_args = [],
             c_status = ''running'', c_broken_lookup = []\<rparr>]))"
    by (simp add: running_containers_def grep_q_def regex_line_match_def)
  have r: "''MIND_MODEL_qwen1.5b''
        \<in> set (map c_name (running_containers
           [\<lparr>c_name = ''MIND_MODEL_qwen1.5b'', c_inspect_ok = True, c_env = [], c_args = [],
             c_status = ''running'', c_broken_lookup = []\<rparr>]))"
    by (simp add: running_containers_def)
  have e: "redis_exists ''model:qwen1.5b''
        [(''model:qwen1.5b'', RHash [(''status'', ''stopped'')]),
         (''model:llama8b'', RHash [(''status'', ''stopped'')])]"
    by (simp add: redis_exists_def)
  show ?thesis
    using g r e
      reconcile_deletes_without_container [of "''llama8b''"
        "[\<lparr>c_name = ''MIND_MODEL_qwen1.5b'', c_inspect_ok = True, c_env = [], c_args = [],
           c_status = ''running'', c_broken_lookup = []\<rparr>]" NotFound False False
        "[(''model:qwen1.5b'', RHash [(''status'', ''stopped'')]),
          (''model:llama8b'', RHash [(''status'', ''stopped'')])]"]
      reconcile_deletes_without_container [of "''qwen1.5b''"
        "[\<lparr>c_name = ''MIND_MODEL_qwen1.5b'', c_inspect_ok = True, c_env = [], c_args = [],
           c_status = ''running'', c_broken_lookup = []\<rparr>]" NotFound False False
        "[(''model:qwen1.5b'', RHash [(''status'', ''stopped'')]),
          (''model:llama8b'', RHash [(''status'', ''stopped'')])]"]
    by simp
qed

subsection \<open>Containers that the catalog does not know\<close>



text \<open>
  When the lookup program fails (here the catalog file does not load), nothing is
  printed, the type is empty and not \<open>unknown\<close>, and the record is written.
\<close>

lemma failed_lookup_upserts_empty_type:
  "redis_hget ''model:qwen1.5b'' ''type''
        (fst (sync_container Unparsable
           \<lparr>c_name = ''MIND_MODEL_qwen1.5b'', c_inspect_ok = True, c_env = [],
             c_args = [''--model'', ''Qwen/Qwen2.5-1.5B-Instruct''],
             c_status = ''running'', c_broken_lookup = []\<rparr>
           ([], []))) = []
   \<and> redis_exists ''model:qwen1.5b''
        (fst (sync_container Unparsable
           \<lparr>c_name = ''MIND_MODEL_qwen1.5b'', c_inspect_ok = True, c_env = [],
             c_args = [''--model'', ''Qwen/Qwen2.5-1.5B-Instruct''],
             c_status = ''running'', c_broken_lookup = []\<rparr>
           ([], [])))"
  by (simp add: Let_def sync_container_def run_lookup_def pastes_as_literal_def strip_prefix_def
        gpu_device_of_def cut_f1_def cut_f2_def redis_hget_def redis_set_def redis_del_def
        redis_hset_def hash_put_def redis_exists_def)




subsection \<open>The generated route file\<close>

lemma filter_location_common: "filter is_location_line location_common = []"
  by (simp add: location_common_def is_location_line_def)

lemma filter_chat_location:
  "filter is_location_line (chat_location a) = [''location = /api/v1/'' @ a @ ''/chat/completions {'']"
  by (simp add: chat_location_def filter_location_common) (simp add: is_location_line_def)

lemma filter_direct_location:
  "filter is_location_line (direct_location a c) = [''location /api/v1/'' @ a @ ''/ {'']"
  by (simp add: direct_location_def filter_location_common) (simp add: is_location_line_def)

lemma filter_model_routes:
  "filter is_location_line (model_routes c)
     = [''location = /api/v1/'' @ strip_prefix ''MIND_MODEL_'' c @ ''/chat/completions {'',
        ''location /api/v1/'' @ strip_prefix ''MIND_MODEL_'' c @ ''/ {'']"
proof -
  have "filter is_location_line (model_routes c)
          = filter is_location_line (chat_location (strip_prefix ''MIND_MODEL_'' c))
            @ filter is_location_line (direct_location (strip_prefix ''MIND_MODEL_'' c) c)"
    by (simp add: model_routes_def Let_def is_location_line_def)
  then show ?thesis
    by (simp only: filter_chat_location filter_direct_location) simp
qed

lemma filter_generate_routes:
  "filter is_location_line (generate_routes R)
     = concat (map (\<lambda>c. [''location = /api/v1/'' @ strip_prefix ''MIND_MODEL_'' c @ ''/chat/completions {'',
                          ''location /api/v1/'' @ strip_prefix ''MIND_MODEL_'' c @ ''/ {'']) R)"
proof -
  have "filter is_location_line (concat (map model_routes R))
          = concat (map (\<lambda>c. filter is_location_line (model_routes c)) R)"
    by (induction R) simp_all
  moreover have "filter is_location_line (generate_routes R)
          = filter is_location_line (concat (map model_routes R))"
    by (simp add: generate_routes_def is_location_line_def)
  ultimately show ?thesis
    by (simp only: filter_model_routes)
qed

lemma sublist_trans: "sublist xs ys \<Longrightarrow> sublist ys zs \<Longrightarrow> sublist xs zs"
  by (metis sublist_order.order.trans)

lemma model_routes_in_file:
  assumes "c \<in> set R"
  shows "sublist (model_routes c) (generate_routes R)"
proof -
  obtain R1 R2 where "R = R1 @ c # R2"
    using assms by (auto simp: in_set_conv_decomp)
  then have "generate_routes R
      = ([[], ''# Auto-generated model routing configuration''] @ concat (map model_routes R1))
        @ model_routes c @ concat (map model_routes R2)"
    by (simp add: generate_routes_def)
  then show ?thesis
    by (simp only: sublist_appendI)
qed

lemma chat_location_in_routes:
  "sublist (chat_location (strip_prefix ''MIND_MODEL_'' c)) (model_routes c)"
proof -
  have "model_routes c
      = [[], ''# Model: '' @ strip_prefix ''MIND_MODEL_'' c @ '' (OpenAI-compatible API)'', [],
         ''# Route chat/completions through orchestrator for smart context management'']
        @ chat_location (strip_prefix ''MIND_MODEL_'' c)
        @ ([[], ''# Route all other endpoints directly to model'']
           @ direct_location (strip_prefix ''MIND_MODEL_'' c) c)"
    by (simp add: model_routes_def Let_def)
  then show ?thesis by (simp only: sublist_appendI)
qed

lemma direct_location_in_routes:
  "sublist (direct_location (strip_prefix ''MIND_MODEL_'' c) c) (model_routes c)"
proof -
  have "model_routes c
      = ([[], ''# Model: '' @ strip_prefix ''MIND_MODEL_'' c @ '' (OpenAI-compatible API)'', [],
         ''# Route chat/completions through orchestrator for smart context management'']
        @ chat_location (strip_prefix ''MIND_MODEL_'' c)
        @ [[], ''# Route all other endpoints directly to model''])
        @ direct_location (strip_prefix ''MIND_MODEL_'' c) c"
    by (simp add: model_routes_def Let_def)
  then show ?thesis by (simp only: sublist_append_leftI)
qed

lemma chat_location_shape:
  "take 2 (chat_location a)
     = [''location = /api/v1/'' @ a @ ''/chat/completions {'',
        ''    proxy_pass http://orchestrator/api/v1/'' @ a @ ''/chat/completions;'']
   \<and> ''    proxy_read_timeout 300s;'' \<in> set (chat_location a)
   \<and> ''    proxy_send_timeout 300s;'' \<in> set (chat_location a)
   \<and> last (chat_location a) = ''}''"
  by (simp add: chat_location_def location_common_def)

lemma direct_location_shape:
  "take 2 (direct_location a c)
     = [''location /api/v1/'' @ a @ ''/ {'',
        ''    proxy_pass http://'' @ c @ '':8000/v1/;'']
   \<and> ''    proxy_read_timeout 300s;'' \<in> set (direct_location a c)
   \<and> ''    proxy_send_timeout 300s;'' \<in> set (direct_location a c)
   \<and> last (direct_location a c) = ''}''"
  by (simp add: direct_location_def location_common_def)

lemma sync_redis_routes:
  assumes "fst (snd (sync_redis catalog docker_ps orchestrator_up reload_ok db)) = Some file"
  shows "file = generate_routes (map c_name (running_containers docker_ps))"
  using assms by (auto simp: sync_redis_def Let_def split: if_splits)

text \<open>
  The specification writes the blocks for the model records with status running. The
  script reads no record and no status when it writes the file: a paused container,
  whose record says stopped and stays so, gets both blocks.
\<close>

theorem routes_for_stopped_record_counterexample:
  "redis_hget ''model:qwen1.5b'' ''status''
      (fst (sync_redis
         (Parsed [\<lparr>cm_abbr = Some ''qwen1.5b'', cm_name = Some ''Qwen/Qwen2.5-1.5B-Instruct'',
                    cm_type = Some ''llm''\<rparr>])
         [\<lparr>c_name = ''MIND_MODEL_qwen1.5b'', c_inspect_ok = True, c_env = [], c_args = [],
           c_status = ''paused'', c_broken_lookup = []\<rparr>] True True
         [(''model:qwen1.5b'', RHash [(''abbr'', ''qwen1.5b''), (''status'', ''stopped'')])]))
     = ''stopped''
   \<and> map_option (filter is_location_line)
        (fst (snd (sync_redis
           (Parsed [\<lparr>cm_abbr = Some ''qwen1.5b'', cm_name = Some ''Qwen/Qwen2.5-1.5B-Instruct'',
                      cm_type = Some ''llm''\<rparr>])
           [\<lparr>c_name = ''MIND_MODEL_qwen1.5b'', c_inspect_ok = True, c_env = [], c_args = [],
             c_status = ''paused'', c_broken_lookup = []\<rparr>] True True
           [(''model:qwen1.5b'', RHash [(''abbr'', ''qwen1.5b''), (''status'', ''stopped'')])])))
     = Some [''location = /api/v1/qwen1.5b/chat/completions {'', ''location /api/v1/qwen1.5b/ {'']"
proof -
  have "filter is_location_line (generate_routes [''MIND_MODEL_qwen1.5b''])
          = [''location = /api/v1/qwen1.5b/chat/completions {'', ''location /api/v1/qwen1.5b/ {'']"
    by (simp add: filter_generate_routes strip_prefix_def)
  then show ?thesis
    by (simp add: Let_def sync_redis_def running_containers_def redis_scan_def redis_del_def
          redis_hget_def sync_container_def clean_key_def strip_prefix_def grep_q_def
          regex_line_match_def gpu_device_of_def)
qed

text \<open>
  Claim C8, as amended. The route file that the script writes contains, for every
  container that \<^verbatim>\<open>docker ps\<close> lists under the prefix \<open>MIND_MODEL_\<close>, whatever
  the state of the container and the status of its model record, exactly two location
  blocks, and no other: the block \<open>/api/v1/{abbr}/chat/completions\<close> proxied to the
  orchestrator's endpoint of the same path, and the block \<open>/api/v1/{abbr}/\<close> proxied
  to the container on port 8000 under the engine's \<open>/v1/\<close> prefix; both blocks set
  read and send timeouts of 300 s.
\<close>

theorem routes_two_locations_per_model:
  assumes "fst (snd (sync_redis catalog docker_ps orchestrator_up reload_ok db)) = Some file"
  shows "filter is_location_line file
           = concat (map (\<lambda>container.
                [''location = /api/v1/'' @ strip_prefix ''MIND_MODEL_'' container @ ''/chat/completions {'',
                 ''location /api/v1/'' @ strip_prefix ''MIND_MODEL_'' container @ ''/ {''])
              (map c_name (running_containers docker_ps)))
         \<and> (\<forall>container \<in> set (map c_name (running_containers docker_ps)).
              let MODEL_ABBR = strip_prefix ''MIND_MODEL_'' container;
                  chat = chat_location MODEL_ABBR;
                  direct = direct_location MODEL_ABBR container
              in sublist chat file \<and> sublist direct file
               \<and> take 2 chat
                   = [''location = /api/v1/'' @ MODEL_ABBR @ ''/chat/completions {'',
                      ''    proxy_pass http://orchestrator/api/v1/'' @ MODEL_ABBR @ ''/chat/completions;'']
               \<and> take 2 direct
                   = [''location /api/v1/'' @ MODEL_ABBR @ ''/ {'',
                      ''    proxy_pass http://'' @ container @ '':8000/v1/;'']
               \<and> ''    proxy_read_timeout 300s;'' \<in> set chat
               \<and> ''    proxy_send_timeout 300s;'' \<in> set chat
               \<and> ''    proxy_read_timeout 300s;'' \<in> set direct
               \<and> ''    proxy_send_timeout 300s;'' \<in> set direct
               \<and> last chat = ''}'' \<and> last direct = ''}'')"
proof -
  define R where "R = map c_name (running_containers docker_ps)"
  have gen: "file = generate_routes R"
    unfolding R_def using assms by (rule sync_redis_routes)
  have blocks: "filter is_location_line file
           = concat (map (\<lambda>container.
                [''location = /api/v1/'' @ strip_prefix ''MIND_MODEL_'' container @ ''/chat/completions {'',
                 ''location /api/v1/'' @ strip_prefix ''MIND_MODEL_'' container @ ''/ {'']) R)"
    unfolding gen by (rule filter_generate_routes)
  have each: "sublist (chat_location (strip_prefix ''MIND_MODEL_'' c)) file
         \<and> sublist (direct_location (strip_prefix ''MIND_MODEL_'' c) c) file"
    if "c \<in> set R" for c
    unfolding gen
    using model_routes_in_file [OF that] chat_location_in_routes [of c]
      direct_location_in_routes [of c]
    by (blast intro: sublist_trans)
  show ?thesis
    unfolding R_def [symmetric] Let_def
    using blocks each chat_location_shape direct_location_shape by blast
qed

theorem routes_two_locations_per_model_witness:
  "fst (snd (sync_redis NotFound
        [\<lparr>c_name = ''MIND_MODEL_qwen1.5b'', c_inspect_ok = True, c_env = [], c_args = [],
          c_status = ''running'', c_broken_lookup = []\<rparr>] True True []))
     = Some (generate_routes [''MIND_MODEL_qwen1.5b''])
   \<and> filter is_location_line (generate_routes [''MIND_MODEL_qwen1.5b''])
     = [''location = /api/v1/qwen1.5b/chat/completions {'', ''location /api/v1/qwen1.5b/ {'']
   \<and> sublist (direct_location ''qwen1.5b'' ''MIND_MODEL_qwen1.5b'')
        (generate_routes [''MIND_MODEL_qwen1.5b''])
   \<and> take 2 (direct_location ''qwen1.5b'' ''MIND_MODEL_qwen1.5b'')
     = [''location /api/v1/qwen1.5b/ {'', ''    proxy_pass http://MIND_MODEL_qwen1.5b:8000/v1/;'']"
proof -
  have run: "fst (snd (sync_redis NotFound
        [\<lparr>c_name = ''MIND_MODEL_qwen1.5b'', c_inspect_ok = True, c_env = [], c_args = [],
          c_status = ''running'', c_broken_lookup = []\<rparr>] True True []))
     = Some (generate_routes [''MIND_MODEL_qwen1.5b''])"
    by (simp add: sync_redis_def running_containers_def Let_def)
  have names: "map c_name (running_containers
        [\<lparr>c_name = ''MIND_MODEL_qwen1.5b'', c_inspect_ok = True, c_env = [], c_args = [],
          c_status = ''running'', c_broken_lookup = []\<rparr>]) = [''MIND_MODEL_qwen1.5b'']"
    by (simp add: running_containers_def)
  have strip: "strip_prefix ''MIND_MODEL_'' ''MIND_MODEL_qwen1.5b'' = ''qwen1.5b''"
    by (simp add: strip_prefix_def)
  show ?thesis
    using routes_two_locations_per_model [OF run] run
    unfolding names by (simp add: strip Let_def)
qed

section \<open>Properties of the API key manager\<close>

lemma revealed_map_Ch [simp]: "revealed (map Ch s) = s"
  by (induction s) simp_all

lemma revealed_replicate_Bullet [simp]: "revealed (replicate n Bullet) = []"
  by (induction n) simp_all

lemma revealed_append [simp]: "revealed (xs @ ys) = revealed xs @ revealed ys"
  by (induction xs rule: revealed.induct) simp_all

lemma revealed_maskKey:
  "revealed (maskKey key) = (case key of None \<Rightarrow> [] | Some s \<Rightarrow> take 8 s)"
  by (simp add: maskKey_def split: option.splits)

lemma displayKey_without_full_key:
  assumes "ak_full_key e = None"
  shows "revealed (displayKey visibleKeys e)
           = (if None \<in> visibleKeys then []
              else case ak_key e of None \<Rightarrow> [] | Some s \<Rightarrow> take 8 s)"
  using assms by (simp add: displayKey_def js_or_def revealed_maskKey)

lemma displayKey_with_full_key:
  "ak_full_key e = Some s \<Longrightarrow> Some s \<in> visibleKeys
     \<Longrightarrow> revealed (displayKey visibleKeys e) = s"
  by (simp add: displayKey_def)

text \<open>
  Claim C6. The full key is in the creation response; every later read of the key list
  holds entries with the name, the prefix (the first 8 characters, which differ from a
  key of 32 or more characters) and the timestamps, and no full key; so the key list of
  the dashboard shows at most 8 characters of any key, whatever rows were toggled
  visible.
\<close>

theorem full_key_only_at_creation:
  assumes "32 \<le> length token"
  shows "cr_api_key (fst (create_api_key H token name description now store)) = token
         \<and> list_api_keys (snd (create_api_key H token name description now store))
             = list_api_keys store
               @ [\<lparr>ak_name = Some name, ak_prefix = Some (take 8 token), ak_key = None,
                   ak_full_key = None, ak_created_at = Some now, ak_last_used_at = None\<rparr>]
         \<and> take 8 token \<noteq> token
         \<and> (\<forall>e \<in> set (list_api_keys (snd (create_api_key H token name description now store))).
               ak_full_key e = None
               \<and> (\<forall>visibleKeys. length (revealed (displayKey visibleKeys e)) \<le> 8))"
proof -
  have "length (take 8 token) \<noteq> length token" using assms by simp
  then have ne: "take 8 token \<noteq> token" by metis
  have nofull: "ak_full_key e = None" if "e \<in> set (list_api_keys s)" for e s
    using that by (auto simp: list_api_keys_def list_entry_def)
  have shown: "length (revealed (displayKey visibleKeys e)) \<le> 8"
    if "e \<in> set (list_api_keys s)" for e s visibleKeys
    using displayKey_without_full_key [OF nofull [OF that], of visibleKeys]
    by (simp split: option.splits)
  have "cr_api_key (fst (create_api_key H token name description now store)) = token"
    by (simp add: create_api_key_def)
  moreover have "list_api_keys (snd (create_api_key H token name description now store))
             = list_api_keys store
               @ [\<lparr>ak_name = Some name, ak_prefix = Some (take 8 token), ak_key = None,
                   ak_full_key = None, ak_created_at = Some now, ak_last_used_at = None\<rparr>]"
    by (simp add: create_api_key_def list_api_keys_def list_entry_def)
  ultimately show ?thesis using ne nofull shown by blast
qed

theorem full_key_only_at_creation_witness:
  "32 \<le> length ''sk_0123456789abcdefghijklmnopqrstuvwxyz''
   \<and> cr_api_key (fst (create_api_key rev ''sk_0123456789abcdefghijklmnopqrstuvwxyz''
                        ''k1'' [] 1700000000 [])) = ''sk_0123456789abcdefghijklmnopqrstuvwxyz''
   \<and> list_api_keys (snd (create_api_key rev ''sk_0123456789abcdefghijklmnopqrstuvwxyz''
                        ''k1'' [] 1700000000 []))
       = [\<lparr>ak_name = Some ''k1'', ak_prefix = Some ''sk_01234'', ak_key = None,
           ak_full_key = None, ak_created_at = Some 1700000000, ak_last_used_at = None\<rparr>]
   \<and> revealed (displayKey {}
        \<lparr>ak_name = Some ''k1'', ak_prefix = Some ''sk_01234'', ak_key = None,
          ak_full_key = None, ak_created_at = Some 1700000000, ak_last_used_at = None\<rparr>) = []"
proof -
  have len: "32 \<le> length ''sk_0123456789abcdefghijklmnopqrstuvwxyz''" by simp
  show ?thesis
    using len full_key_only_at_creation [OF len, of rev "''k1''" "[]" 1700000000 "[]"]
    by (simp add: list_api_keys_def displayKey_def js_or_def maskKey_def)
qed

end
